theory Spec2Isabelle
  imports Main "HOL-Library.Sublist"
begin

section \<open>Python values and exceptions\<close>

text \<open>
  The values \<^verbatim>\<open>json.loads\<close> produces (None, bool, int, float, str, list, dict with
  string keys), and bytes, which the handshake messages hold. A dict is an association
  list in insertion order, read with \<open>map_of\<close>. The program never looks inside a
  float, so a float is kept as its literal.
\<close>

datatype pyval =
    PNone
  | PBool bool
  | PInt int
  | PFloat string
  | PStr string
  | PBytes "char list"
  | PList "pyval list"
  | PDict "(string \<times> pyval) list"

text \<open>
  The messages of the \<^verbatim>\<open>ValueError\<close>s that \<^verbatim>\<open>parse_mutation_params\<close> raises. Each
  is an f-string around the offending value; the value is kept as it is.
\<close>

datatype cause =
    InvalidMutationType pyval
  | InvalidTarget pyval
  | MissingRequiredField string pyval
  | InvalidFieldName pyval
  | InvalidPacketType pyval

text \<open>
  The exceptions the program can raise or let through. \<^verbatim>\<open>json.JSONDecodeError\<close>
  carries the decoder's message and is a subclass of \<^verbatim>\<open>ValueError\<close>; a \<^verbatim>\<open>KeyError\<close>
  carries the key; \<^verbatim>\<open>RecursionError\<close> is what the decoder raises on text nested deeper
  than the interpreter's recursion limit, and is not a \<^verbatim>\<open>ValueError\<close>.
\<close>

datatype exn =
    ValueError cause
  | JSONDecodeError string
  | TypeError
  | AttributeError
  | KeyError pyval
  | RecursionError


subsection \<open>The operations of Python the program uses\<close>

text \<open>\<^verbatim>\<open>for x in v\<close>: the items a value yields, or \<^verbatim>\<open>TypeError\<close> when it is not iterable.\<close>

fun py_iter :: "pyval \<Rightarrow> exn + pyval list" where
  "py_iter (PList xs) = Inr xs"
| "py_iter (PDict kvs) = Inr (map (\<lambda>kv. PStr (fst kv)) kvs)"
| "py_iter (PStr s) = Inr (map (\<lambda>c. PStr [c]) s)"
| "py_iter (PBytes b) = Inr (map (\<lambda>c. PInt (of_char c)) b)"
| "py_iter PNone = Inl TypeError"
| "py_iter (PBool b) = Inl TypeError"
| "py_iter (PInt i) = Inl TypeError"
| "py_iter (PFloat f) = Inl TypeError"

text \<open>\<^verbatim>\<open>v.get(k, d)\<close>: only a dict has the method.\<close>

fun py_get :: "pyval \<Rightarrow> string \<Rightarrow> pyval \<Rightarrow> exn + pyval" where
  "py_get (PDict kvs) k d = Inr (case map_of kvs k of None \<Rightarrow> d | Some v \<Rightarrow> v)"
| "py_get PNone k d = Inl AttributeError"
| "py_get (PBool b) k d = Inl AttributeError"
| "py_get (PInt i) k d = Inl AttributeError"
| "py_get (PFloat f) k d = Inl AttributeError"
| "py_get (PStr s) k d = Inl AttributeError"
| "py_get (PBytes b) k d = Inl AttributeError"
| "py_get (PList xs) k d = Inl AttributeError"

text \<open>\<^verbatim>\<open>v[k]\<close> with a string \<open>k\<close>: a dict looks the key up; nothing else takes a string index.\<close>

fun py_getitem :: "pyval \<Rightarrow> string \<Rightarrow> exn + pyval" where
  "py_getitem (PDict kvs) k = (case map_of kvs k of None \<Rightarrow> Inl (KeyError (PStr k)) | Some v \<Rightarrow> Inr v)"
| "py_getitem PNone k = Inl TypeError"
| "py_getitem (PBool b) k = Inl TypeError"
| "py_getitem (PInt i) k = Inl TypeError"
| "py_getitem (PFloat f) k = Inl TypeError"
| "py_getitem (PStr s) k = Inl TypeError"
| "py_getitem (PBytes b) k = Inl TypeError"
| "py_getitem (PList xs) k = Inl TypeError"

text \<open>
  \<^verbatim>\<open>k in v\<close> with a string \<open>k\<close>: a key of a dict, an element of a list, a substring of a
  string; \<^verbatim>\<open>TypeError\<close> on bytes and on what is not a container.
\<close>

fun py_contains :: "pyval \<Rightarrow> string \<Rightarrow> exn + bool" where
  "py_contains (PDict kvs) k = Inr (map_of kvs k \<noteq> None)"
| "py_contains (PList xs) k = Inr (PStr k \<in> set xs)"
| "py_contains (PStr s) k = Inr (sublist k s)"
| "py_contains (PBytes b) k = Inl TypeError"
| "py_contains PNone k = Inl TypeError"
| "py_contains (PBool b) k = Inl TypeError"
| "py_contains (PInt i) k = Inl TypeError"
| "py_contains (PFloat f) k = Inl TypeError"

text \<open>\<^verbatim>\<open>v in [s1, s2, ...]\<close> for a list of strings: only an equal string is a member.\<close>

fun in_strs :: "pyval \<Rightarrow> string list \<Rightarrow> bool" where
  "in_strs (PStr s) names = (s \<in> set names)"
| "in_strs PNone names = False"
| "in_strs (PBool b) names = False"
| "in_strs (PInt i) names = False"
| "in_strs (PFloat f) names = False"
| "in_strs (PBytes b) names = False"
| "in_strs (PList xs) names = False"
| "in_strs (PDict kvs) names = False"

text \<open>
  \<^verbatim>\<open>v in d.keys()\<close> for a dict with string keys: the value is hashed first, and a list
  or a dict is unhashable.
\<close>

fun in_keys :: "pyval \<Rightarrow> (string \<times> 'a) list \<Rightarrow> exn + bool" where
  "in_keys (PList xs) d = Inl TypeError"
| "in_keys (PDict kvs) d = Inl TypeError"
| "in_keys (PStr s) d = Inr (map_of d s \<noteq> None)"
| "in_keys PNone d = Inr False"
| "in_keys (PBool b) d = Inr False"
| "in_keys (PInt i) d = Inr False"
| "in_keys (PFloat f) d = Inr False"
| "in_keys (PBytes b) d = Inr False"

text \<open>\<^verbatim>\<open>d[v]\<close> for a dict with string keys.\<close>

fun key_lookup :: "(string \<times> 'a) list \<Rightarrow> pyval \<Rightarrow> exn + 'a" where
  "key_lookup d (PStr s) = (case map_of d s of None \<Rightarrow> Inl (KeyError (PStr s)) | Some v \<Rightarrow> Inr v)"
| "key_lookup d (PList xs) = Inl TypeError"
| "key_lookup d (PDict kvs) = Inl TypeError"
| "key_lookup d PNone = Inl (KeyError PNone)"
| "key_lookup d (PBool b) = Inl (KeyError (PBool b))"
| "key_lookup d (PInt i) = Inl (KeyError (PInt i))"
| "key_lookup d (PFloat f) = Inl (KeyError (PFloat f))"
| "key_lookup d (PBytes b) = Inl (KeyError (PBytes b))"

section \<open>The vocabulary\<close>

definition MUTATIONS_FORMAT :: "(string \<times> string list) list" where
  "MUTATIONS_FORMAT =
    [(''identity'', []),
     (''remove_field'', [''field_name'']),
     (''modify_field'', [''field_name'', ''new_value'']),
     (''send_additional_packet'', [''packet_type'', ''packet_content''])]"

definition ALLOWED_PACKET_TYPES :: "string list" where
  "ALLOWED_PACKET_TYPES = [''ClientHello'', ''ServerHello'']"

definition ALLOWED_FIELD_NAMES :: "string list" where
  "ALLOWED_FIELD_NAMES =
    [''random'', ''legacy_session_id'', ''cipher_suites'', ''legacy_compression_methods'',
     ''alpn_protocols'', ''early_data'', ''key_share'', ''pre_shared_key'',
     ''psk_key_exchange_modes'', ''server_name'', ''signature_algorithms'',
     ''supported_groups'', ''supported_versions'', ''other_extensions'']"

section \<open>The validator: \<^verbatim>\<open>Mutator.parse_mutation_params\<close>\<close>

text \<open>
  The inner loop, \<^verbatim>\<open>for field in required_fields\<close>: presence, then the two enumeration
  checks, which read \<^verbatim>\<open>fields[field]\<close> only for their own field.
\<close>

fun check_required_fields :: "pyval \<Rightarrow> pyval \<Rightarrow> string list \<Rightarrow> exn + unit" where
  "check_required_fields mutation_type fields [] = Inr ()"
| "check_required_fields mutation_type fields (field # required_fields) =
    (case py_contains fields field of
       Inl e \<Rightarrow> Inl e
     | Inr present \<Rightarrow>
        if \<not> present then Inl (ValueError (MissingRequiredField field mutation_type))
        else
          (case (if field = ''field_name''
                 then (case py_getitem fields field of
                         Inl e \<Rightarrow> Inl e
                       | Inr v \<Rightarrow>
                          if \<not> in_strs v ALLOWED_FIELD_NAMES
                          then Inl (ValueError (InvalidFieldName v)) else Inr ())
                 else Inr ()) of
             Inl e \<Rightarrow> Inl e
           | Inr u \<Rightarrow>
              (case (if field = ''packet_type''
                     then (case py_getitem fields field of
                             Inl e \<Rightarrow> Inl e
                           | Inr v \<Rightarrow>
                              if \<not> in_strs v ALLOWED_PACKET_TYPES
                              then Inl (ValueError (InvalidPacketType v)) else Inr ())
                     else Inr ()) of
                 Inl e \<Rightarrow> Inl e
               | Inr u \<Rightarrow> check_required_fields mutation_type fields required_fields)))"

text \<open>
  The body of the outer loop for one entry: the three \<^verbatim>\<open>.get\<close> calls, the checks, and
  the descriptor \<^verbatim>\<open>mutation_params\<close> it appends, its keys in the order they are set.
\<close>

definition validate_entry :: "pyval \<Rightarrow> exn + pyval" where
  "validate_entry mutation =
    (case py_get mutation ''mutation'' PNone of
       Inl e \<Rightarrow> Inl e
     | Inr mutation_type \<Rightarrow>
    (case py_get mutation ''target'' PNone of
       Inl e \<Rightarrow> Inl e
     | Inr target \<Rightarrow>
    (case py_get mutation ''fields'' (PDict []) of
       Inl e \<Rightarrow> Inl e
     | Inr fields \<Rightarrow>
    (case in_keys mutation_type MUTATIONS_FORMAT of
       Inl e \<Rightarrow> Inl e
     | Inr known \<Rightarrow>
        if \<not> known then Inl (ValueError (InvalidMutationType mutation_type))
        else if \<not> in_strs target [''client'', ''server'']
        then Inl (ValueError (InvalidTarget target))
        else
          (case key_lookup MUTATIONS_FORMAT mutation_type of
             Inl e \<Rightarrow> Inl e
           | Inr required_fields \<Rightarrow>
              (case check_required_fields mutation_type fields required_fields of
                 Inl e \<Rightarrow> Inl e
               | Inr u \<Rightarrow>
                  Inr (PDict [(''mutation_type'', mutation_type),
                              (''target'', target),
                              (''fields'', fields)])))))))"

text \<open>The outer loop, \<^verbatim>\<open>for mutation in param_json\<close>, appending to \<^verbatim>\<open>mutation_list\<close>.\<close>

fun parse_loop :: "pyval list \<Rightarrow> pyval list \<Rightarrow> exn + pyval list" where
  "parse_loop [] mutation_list = Inr mutation_list"
| "parse_loop (mutation # rest) mutation_list =
    (case validate_entry mutation of
       Inl e \<Rightarrow> Inl e
     | Inr mutation_params \<Rightarrow> parse_loop rest (mutation_list @ [mutation_params]))"

text \<open>
  \<^verbatim>\<open>json.loads\<close> is the standard library's and is a parameter here: it returns the decoded
  value or the exception it raises. The call stands outside any \<^verbatim>\<open>try\<close>, so its
  exception leaves the function as it is.
\<close>

definition parse_mutation_params :: "(string \<Rightarrow> exn + pyval) \<Rightarrow> string \<Rightarrow> exn + pyval list" where
  "parse_mutation_params json_loads param_str =
    (case json_loads param_str of
       Inl e \<Rightarrow> Inl e
     | Inr param_json \<Rightarrow>
        (case py_iter param_json of
           Inl e \<Rightarrow> Inl e
         | Inr entries \<Rightarrow> parse_loop entries []))"

section \<open>The engine: \<^verbatim>\<open>Mutator.mutate_client_hello\<close> and \<^verbatim>\<open>Mutator.mutate_server_hello\<close>\<close>

text \<open>
  A handshake message is an instance of \<^verbatim>\<open>ClientHello\<close> or \<^verbatim>\<open>ServerHello\<close>, dataclasses
  of the handshake library (not frozen, without \<^verbatim>\<open>__slots__\<close>). The class is not among
  the sources, so the message carries what the engine can see of it: \<open>attrs\<close> is the
  instance's own \<^verbatim>\<open>__dict__\<close>, the fields and their values; \<open>class_names\<close> are the
  names its class and the bases of the class define (methods, class-level defaults),
  none of them a data descriptor. Every instance has besides the three data descriptors
  of a plain class.
\<close>

datatype hello = Hello (attrs: "string \<rightharpoonup> pyval") (class_names: "string list")

definition data_descriptors :: "string list" where
  "data_descriptors = [''__class__'', ''__dict__'', ''__weakref__'']"

text \<open>
  \<^verbatim>\<open>hasattr(obj, name)\<close>: the name is found in the instance or on its class;
  \<^verbatim>\<open>TypeError\<close> when the name is not a string.
\<close>

fun py_hasattr :: "hello \<Rightarrow> pyval \<Rightarrow> exn + bool" where
  "py_hasattr obj (PStr name) =
     Inr (attrs obj name \<noteq> None \<or> name \<in> set (class_names obj) \<or> name \<in> set data_descriptors)"
| "py_hasattr obj PNone = Inl TypeError"
| "py_hasattr obj (PBool b) = Inl TypeError"
| "py_hasattr obj (PInt i) = Inl TypeError"
| "py_hasattr obj (PFloat f) = Inl TypeError"
| "py_hasattr obj (PBytes b) = Inl TypeError"
| "py_hasattr obj (PList xs) = Inl TypeError"
| "py_hasattr obj (PDict kvs) = Inl TypeError"

text \<open>
  \<^verbatim>\<open>setattr(obj, name, v)\<close>. A data descriptor of the class takes the assignment:
  \<^verbatim>\<open>__class__\<close> accepts only a class, which no value here is; \<^verbatim>\<open>__dict__\<close> accepts only
  a dict, which then is the instance's \<^verbatim>\<open>__dict__\<close> in place of the old one;
  \<^verbatim>\<open>__weakref__\<close> is not writable. Any other name is bound in the instance's
  \<^verbatim>\<open>__dict__\<close>. A failed assignment leaves the object as it was.
\<close>

fun py_setattr :: "hello \<Rightarrow> pyval \<Rightarrow> pyval \<Rightarrow> exn + hello" where
  "py_setattr obj (PStr name) v =
     (if name = ''__class__'' then Inl TypeError
      else if name = ''__dict__'' then
        (case v of
           PDict kvs \<Rightarrow> Inr (Hello (map_of kvs) (class_names obj))
         | PNone \<Rightarrow> Inl TypeError
         | PBool b \<Rightarrow> Inl TypeError
         | PInt i \<Rightarrow> Inl TypeError
         | PFloat f \<Rightarrow> Inl TypeError
         | PStr s \<Rightarrow> Inl TypeError
         | PBytes b \<Rightarrow> Inl TypeError
         | PList xs \<Rightarrow> Inl TypeError)
      else if name = ''__weakref__'' then Inl AttributeError
      else Inr (Hello ((attrs obj)(name \<mapsto> v)) (class_names obj)))"
| "py_setattr obj PNone v = Inl TypeError"
| "py_setattr obj (PBool b) v = Inl TypeError"
| "py_setattr obj (PInt i) v = Inl TypeError"
| "py_setattr obj (PFloat f) v = Inl TypeError"
| "py_setattr obj (PBytes b) v = Inl TypeError"
| "py_setattr obj (PList xs) v = Inl TypeError"
| "py_setattr obj (PDict kvs) v = Inl TypeError"

text \<open>
  The body of the loop of \<^verbatim>\<open>mutate_client_hello\<close> for one descriptor: the message it
  leaves, or the exception it raises (the one \<^verbatim>\<open>setattr\<close> is its last action, so the
  message is then as it was). \<^verbatim>\<open>continue\<close> is the early \<open>Inr client_hello\<close>; the closing
  \<^verbatim>\<open>if mutation_type == "identity": pass\<close> is the last test.
\<close>

definition client_hello_step :: "hello \<Rightarrow> pyval \<Rightarrow> exn + hello" where
  "client_hello_step client_hello mutation =
    (case py_getitem mutation ''target'' of
       Inl e \<Rightarrow> Inl e
     | Inr target \<Rightarrow>
        if target \<noteq> PStr ''client'' then Inr client_hello
        else
    (case py_getitem mutation ''mutation_type'' of
       Inl e \<Rightarrow> Inl e
     | Inr mutation_type \<Rightarrow>
    (case py_getitem mutation ''fields'' of
       Inl e \<Rightarrow> Inl e
     | Inr fields \<Rightarrow>
    (case (if mutation_type = PStr ''remove_field'' then
             (case py_getitem fields ''field_name'' of
                Inl e \<Rightarrow> Inl e
              | Inr field_name \<Rightarrow>
                 (case py_hasattr client_hello field_name of
                    Inl e \<Rightarrow> Inl e
                  | Inr has \<Rightarrow>
                     if has then py_setattr client_hello field_name PNone
                     else Inr client_hello))
           else if mutation_type = PStr ''modify_field'' then
             (case py_getitem fields ''field_name'' of
                Inl e \<Rightarrow> Inl e
              | Inr field_name \<Rightarrow>
                 (case py_getitem fields ''new_value'' of
                    Inl e \<Rightarrow> Inl e
                  | Inr new_value \<Rightarrow>
                     (case py_hasattr client_hello field_name of
                        Inl e \<Rightarrow> Inl e
                      | Inr has \<Rightarrow>
                         if has then py_setattr client_hello field_name new_value
                         else Inr client_hello)))
           else Inr client_hello) of
       Inl e \<Rightarrow> Inl e
     | Inr mutated \<Rightarrow>
        if mutation_type = PStr ''identity'' then Inr mutated else Inr mutated))))"

text \<open>
  The loop over \<^verbatim>\<open>self.mutation_params\<close>. The message is mutated in place, so an
  exception leaves it as the descriptors before have made it: \<open>Inl\<close> holds the
  exception and that message, \<open>Inr\<close> the message returned.
\<close>

fun mutate_client_hello :: "pyval list \<Rightarrow> hello \<Rightarrow> exn \<times> hello + hello" where
  "mutate_client_hello [] client_hello = Inr client_hello"
| "mutate_client_hello (mutation # mutation_params) client_hello =
    (case client_hello_step client_hello mutation of
       Inl e \<Rightarrow> Inl (e, client_hello)
     | Inr mutated \<Rightarrow> mutate_client_hello mutation_params mutated)"

text \<open>The same for \<^verbatim>\<open>mutate_server_hello\<close>, which tests the target against \<^verbatim>\<open>"server"\<close>.\<close>

definition server_hello_step :: "hello \<Rightarrow> pyval \<Rightarrow> exn + hello" where
  "server_hello_step server_hello mutation =
    (case py_getitem mutation ''target'' of
       Inl e \<Rightarrow> Inl e
     | Inr target \<Rightarrow>
        if target \<noteq> PStr ''server'' then Inr server_hello
        else
    (case py_getitem mutation ''mutation_type'' of
       Inl e \<Rightarrow> Inl e
     | Inr mutation_type \<Rightarrow>
    (case py_getitem mutation ''fields'' of
       Inl e \<Rightarrow> Inl e
     | Inr fields \<Rightarrow>
    (case (if mutation_type = PStr ''remove_field'' then
             (case py_getitem fields ''field_name'' of
                Inl e \<Rightarrow> Inl e
              | Inr field_name \<Rightarrow>
                 (case py_hasattr server_hello field_name of
                    Inl e \<Rightarrow> Inl e
                  | Inr has \<Rightarrow>
                     if has then py_setattr server_hello field_name PNone
                     else Inr server_hello))
           else if mutation_type = PStr ''modify_field'' then
             (case py_getitem fields ''field_name'' of
                Inl e \<Rightarrow> Inl e
              | Inr field_name \<Rightarrow>
                 (case py_getitem fields ''new_value'' of
                    Inl e \<Rightarrow> Inl e
                  | Inr new_value \<Rightarrow>
                     (case py_hasattr server_hello field_name of
                        Inl e \<Rightarrow> Inl e
                      | Inr has \<Rightarrow>
                         if has then py_setattr server_hello field_name new_value
                         else Inr server_hello)))
           else Inr server_hello) of
       Inl e \<Rightarrow> Inl e
     | Inr mutated \<Rightarrow>
        if mutation_type = PStr ''identity'' then Inr mutated else Inr mutated))))"

fun mutate_server_hello :: "pyval list \<Rightarrow> hello \<Rightarrow> exn \<times> hello + hello" where
  "mutate_server_hello [] server_hello = Inr server_hello"
| "mutate_server_hello (mutation # mutation_params) server_hello =
    (case server_hello_step server_hello mutation of
       Inl e \<Rightarrow> Inl (e, server_hello)
     | Inr mutated \<Rightarrow> mutate_server_hello mutation_params mutated)"

section \<open>Reading entries and descriptors\<close>

text \<open>
  What follows is not code of the program: it is the vocabulary the statements about it
  are written in. \<open>dict_lookup\<close> reads a key of a dict (nothing else has keys).
\<close>

fun dict_lookup :: "pyval \<Rightarrow> string \<Rightarrow> pyval option" where
  "dict_lookup (PDict kvs) k = map_of kvs k"
| "dict_lookup PNone k = None"
| "dict_lookup (PBool b) k = None"
| "dict_lookup (PInt i) k = None"
| "dict_lookup (PFloat f) k = None"
| "dict_lookup (PStr s) k = None"
| "dict_lookup (PBytes b) k = None"
| "dict_lookup (PList xs) k = None"

fun is_dict :: "pyval \<Rightarrow> bool" where
  "is_dict (PDict kvs) = True"
| "is_dict PNone = False"
| "is_dict (PBool b) = False"
| "is_dict (PInt i) = False"
| "is_dict (PFloat f) = False"
| "is_dict (PStr s) = False"
| "is_dict (PBytes b) = False"
| "is_dict (PList xs) = False"

fun is_scalar :: "pyval \<Rightarrow> bool" where
  "is_scalar (PDict kvs) = False"
| "is_scalar (PList xs) = False"
| "is_scalar PNone = True"
| "is_scalar (PBool b) = True"
| "is_scalar (PInt i) = True"
| "is_scalar (PFloat f) = True"
| "is_scalar (PStr s) = True"
| "is_scalar (PBytes b) = True"

text \<open>
  The three members of a wire-format entry, with what stands for an absent one: no kind
  and no target are \<^verbatim>\<open>None\<close>, no \<^verbatim>\<open>fields\<close> is the empty object.
\<close>

definition wire_kind :: "pyval \<Rightarrow> pyval" where
  "wire_kind entry = (case dict_lookup entry ''mutation'' of None \<Rightarrow> PNone | Some k \<Rightarrow> k)"

definition wire_target :: "pyval \<Rightarrow> pyval" where
  "wire_target entry = (case dict_lookup entry ''target'' of None \<Rightarrow> PNone | Some t \<Rightarrow> t)"

definition wire_fields :: "pyval \<Rightarrow> pyval" where
  "wire_fields entry = (case dict_lookup entry ''fields'' of None \<Rightarrow> PDict [] | Some f \<Rightarrow> f)"

text \<open>
  An entry has the shape of the wire format when it is an object, its kind is a scalar
  (a string, in the format) and its \<^verbatim>\<open>fields\<close> is an object.
\<close>

definition wire_shaped :: "pyval \<Rightarrow> bool" where
  "wire_shaped entry = (is_dict entry \<and> is_scalar (wire_kind entry) \<and> is_dict (wire_fields entry))"

text \<open>The descriptor the specification has the validator build from an entry.\<close>

definition descriptor_of :: "pyval \<Rightarrow> pyval" where
  "descriptor_of entry =
    PDict [(''mutation_type'', wire_kind entry),
           (''target'', wire_target entry),
           (''fields'', wire_fields entry)]"

subsection \<open>The validation order, as the specification words it\<close>

text \<open>The table of required parameters per kind.\<close>

definition required_parameters :: "pyval \<Rightarrow> string list" where
  "required_parameters k =
    (if k = PStr ''identity'' then []
     else if k = PStr ''remove_field'' then [''field_name'']
     else if k = PStr ''modify_field'' then [''field_name'', ''new_value'']
     else if k = PStr ''send_additional_packet'' then [''packet_type'', ''packet_content'']
     else [])"

definition kind_check :: "pyval \<Rightarrow> cause option" where
  "kind_check k =
    (if k \<in> PStr ` {''identity'', ''remove_field'', ''modify_field'', ''send_additional_packet''}
     then None else Some (InvalidMutationType k))"

definition target_check :: "pyval \<Rightarrow> cause option" where
  "target_check t =
    (if t = PStr ''client'' \<or> t = PStr ''server'' then None else Some (InvalidTarget t))"

definition presence_check :: "pyval \<Rightarrow> pyval \<Rightarrow> string \<Rightarrow> cause option" where
  "presence_check k f p =
    (if dict_lookup f p = None then Some (MissingRequiredField p k) else None)"

text \<open>Enumeration membership of a supplied parameter; nothing supplied, nothing to check.\<close>

definition enum_check :: "pyval \<Rightarrow> string \<Rightarrow> cause option" where
  "enum_check f p =
    (case dict_lookup f p of
       None \<Rightarrow> None
     | Some v \<Rightarrow>
        if p = ''field_name'' \<and> v \<notin> PStr ` set ALLOWED_FIELD_NAMES then Some (InvalidFieldName v)
        else if p = ''packet_type'' \<and> v \<notin> PStr ` set ALLOWED_PACKET_TYPES
        then Some (InvalidPacketType v)
        else None)"

text \<open>
  All the checks of one entry in the order of the specification: kind, target, then
  presence and enumeration of each required parameter in the declared order.
\<close>

definition spec_checks :: "pyval \<Rightarrow> cause option list" where
  "spec_checks entry =
    [kind_check (wire_kind entry), target_check (wire_target entry)] @
    concat (map (\<lambda>p. [presence_check (wire_kind entry) (wire_fields entry) p,
                       enum_check (wire_fields entry) p])
                (required_parameters (wire_kind entry)))"

text \<open>The first check of a list that fails, if any.\<close>

fun first_failure :: "cause option list \<Rightarrow> cause option" where
  "first_failure [] = None"
| "first_failure (None # checks) = first_failure checks"
| "first_failure (Some c # checks) = Some c"

definition first_violation :: "pyval \<Rightarrow> cause option" where
  "first_violation entry = first_failure (spec_checks entry)"

text \<open>
  An entry that supplies a \<^verbatim>\<open>field_name\<close> outside the field names or a
  \<^verbatim>\<open>packet_type\<close> outside the packet types, whatever its kind.
\<close>

definition supplies_bad_enum :: "pyval \<Rightarrow> bool" where
  "supplies_bad_enum entry =
    ((case dict_lookup (wire_fields entry) ''field_name'' of
        None \<Rightarrow> False | Some v \<Rightarrow> \<not> in_strs v ALLOWED_FIELD_NAMES) \<or>
     (case dict_lookup (wire_fields entry) ''packet_type'' of
        None \<Rightarrow> False | Some v \<Rightarrow> \<not> in_strs v ALLOWED_PACKET_TYPES))"

text \<open>The same for a parameter that the entry's kind requires.\<close>

definition required_bad_enum :: "pyval \<Rightarrow> bool" where
  "required_bad_enum entry =
    (((wire_kind entry = PStr ''remove_field'' \<or> wire_kind entry = PStr ''modify_field'') \<and>
      (case dict_lookup (wire_fields entry) ''field_name'' of
         None \<Rightarrow> False | Some v \<Rightarrow> \<not> in_strs v ALLOWED_FIELD_NAMES)) \<or>
     (wire_kind entry = PStr ''send_additional_packet'' \<and>
      (case dict_lookup (wire_fields entry) ''packet_type'' of
         None \<Rightarrow> False | Some v \<Rightarrow> \<not> in_strs v ALLOWED_PACKET_TYPES)))"


section \<open>Example data\<close>

text \<open>
  The scenario of the specification: two wire entries, the descriptors they validate
  to, and a message with some of the fields of a \<^verbatim>\<open>ClientHello\<close>.
\<close>

definition wire_remove_alpn :: pyval where
  "wire_remove_alpn =
    PDict [(''mutation'', PStr ''remove_field''), (''target'', PStr ''client''),
           (''fields'', PDict [(''field_name'', PStr ''alpn_protocols'')])]"

definition wire_modify_random :: pyval where
  "wire_modify_random =
    PDict [(''mutation'', PStr ''modify_field''), (''target'', PStr ''server''),
           (''fields'', PDict [(''field_name'', PStr ''random''), (''new_value'', PStr ''deadbeef'')])]"

definition remove_alpn :: pyval where
  "remove_alpn =
    PDict [(''mutation_type'', PStr ''remove_field''), (''target'', PStr ''client''),
           (''fields'', PDict [(''field_name'', PStr ''alpn_protocols'')])]"

definition modify_random :: pyval where
  "modify_random =
    PDict [(''mutation_type'', PStr ''modify_field''), (''target'', PStr ''server''),
           (''fields'', PDict [(''field_name'', PStr ''random''), (''new_value'', PStr ''deadbeef'')])]"

definition modify_server_name :: pyval where
  "modify_server_name =
    PDict [(''mutation_type'', PStr ''modify_field''), (''target'', PStr ''client''),
           (''fields'', PDict [(''field_name'', PStr ''server_name''), (''new_value'', PInt 7)])]"


definition example_hello :: hello where
  "example_hello =
    Hello [''random'' \<mapsto> PBytes ''0123'',
           ''alpn_protocols'' \<mapsto> PList [PStr ''h3''],
           ''server_name'' \<mapsto> PStr ''example.org'']
          [''__init__'', ''__repr__'', ''__eq__'', ''__doc__'', ''__module__'',
           ''__dataclass_fields__'', ''early_data'']"

definition entry_bad_field :: pyval where
  "entry_bad_field =
    PDict [(''mutation'', PStr ''modify_field''), (''target'', PStr ''client''),
           (''fields'', PDict [(''field_name'', PStr ''not_a_real_field'')])]"

definition entry_bogus :: pyval where
  "entry_bogus = PDict [(''mutation'', PStr ''bogus''), (''target'', PStr ''peer'')]"

definition entry_identity_extra :: pyval where
  "entry_identity_extra =
    PDict [(''mutation'', PStr ''identity''), (''target'', PStr ''client''),
           (''fields'', PDict [(''field_name'', PStr ''not_a_real_field'')])]"

definition no_fields_server :: pyval where
  "no_fields_server =
    PDict [(''mutation_type'', PStr ''remove_field''), (''target'', PStr ''server'')]"

text \<open>
  A decoder for the examples: a table from the names of a few texts to what
  \<^verbatim>\<open>json.loads\<close> gives on them. The text of \<open>100000\<close> opening brackets exceeds the
  recursion limit; the text \<^verbatim>\<open>NaN\<close>, which is not JSON, is accepted as a float; every text
  not in the table is rejected as malformed.
\<close>

definition example_loads :: "string \<Rightarrow> exn + pyval" where
  "example_loads s =
    (if s = ''scenario'' then Inr (PList [wire_remove_alpn, wire_modify_random])
     else if s = ''second entry invalid''
     then Inr (PList ([wire_remove_alpn] @ entry_bad_field # [entry_bogus]))
     else if s = ''identity with field_name'' then Inr (PList [entry_identity_extra])
     else if s = ''[ repeated 100000 times'' then Inl RecursionError
     else if s = ''NaN'' then Inr (PFloat ''nan'')
     else Inl (JSONDecodeError ''Expecting value''))"

section \<open>Lemmas about the engine\<close>

lemma dict_lookup_getitem:
  "dict_lookup d k = Some v \<Longrightarrow> py_getitem d k = Inr v"
  by (cases d) auto

lemma is_dict_getitem_none:
  "is_dict d \<Longrightarrow> dict_lookup d k = None \<Longrightarrow> py_getitem d k = Inl (KeyError (PStr k))"
  by (cases d) auto

lemma mutate_client_hello_append:
  "mutate_client_hello (xs @ ys) m =
    (case mutate_client_hello xs m of Inl e \<Rightarrow> Inl e | Inr m' \<Rightarrow> mutate_client_hello ys m')"
  by (induction xs arbitrary: m) (auto split: sum.splits)

lemma mutate_server_hello_append:
  "mutate_server_hello (xs @ ys) m =
    (case mutate_server_hello xs m of Inl e \<Rightarrow> Inl e | Inr m' \<Rightarrow> mutate_server_hello ys m')"
  by (induction xs arbitrary: m) (auto split: sum.splits)

lemma client_step_mismatch:
  "dict_lookup d ''target'' = Some t \<Longrightarrow> t \<noteq> PStr ''client'' \<Longrightarrow> client_hello_step m d = Inr m"
  by (simp add: client_hello_step_def dict_lookup_getitem)

lemma server_step_mismatch:
  "dict_lookup d ''target'' = Some t \<Longrightarrow> t \<noteq> PStr ''server'' \<Longrightarrow> server_hello_step m d = Inr m"
  by (simp add: server_hello_step_def dict_lookup_getitem)

lemma client_skip:
  "(\<And>m. client_hello_step m d = Inr m) \<Longrightarrow>
    mutate_client_hello (pre @ d # post) m = mutate_client_hello (pre @ post) m"
  by (simp add: mutate_client_hello_append split: sum.splits)

lemma server_skip:
  "(\<And>m. server_hello_step m d = Inr m) \<Longrightarrow>
    mutate_server_hello (pre @ d # post) m = mutate_server_hello (pre @ post) m"
  by (simp add: mutate_server_hello_append split: sum.splits)

text \<open>
  The vocabulary of field names has none of the data descriptors in it, so an
  assignment to one of its names binds the name in the instance.
\<close>

lemma setattr_allowed:
  "name \<in> set ALLOWED_FIELD_NAMES \<Longrightarrow>
     py_setattr h (PStr name) v = Inr (Hello ((attrs h)(name \<mapsto> v)) (class_names h))"
  by (auto simp: ALLOWED_FIELD_NAMES_def)

lemma client_step_remove:
  assumes "dict_lookup d ''target'' = Some (PStr ''client'')"
      and "dict_lookup d ''mutation_type'' = Some (PStr ''remove_field'')"
      and "dict_lookup d ''fields'' = Some f"
      and "dict_lookup f ''field_name'' = Some (PStr name)"
      and "name \<in> set ALLOWED_FIELD_NAMES"
  shows "client_hello_step m d =
    Inr (if py_hasattr m (PStr name) = Inr True then Hello ((attrs m)(name \<mapsto> PNone)) (class_names m) else m)"
  using assms(1-4)
  by (simp add: client_hello_step_def dict_lookup_getitem setattr_allowed [OF assms(5)]
      del: py_setattr.simps)

lemma client_step_modify:
  assumes "dict_lookup d ''target'' = Some (PStr ''client'')"
      and "dict_lookup d ''mutation_type'' = Some (PStr ''modify_field'')"
      and "dict_lookup d ''fields'' = Some f"
      and "dict_lookup f ''field_name'' = Some (PStr name)"
      and "name \<in> set ALLOWED_FIELD_NAMES"
      and "dict_lookup f ''new_value'' = Some new_value"
  shows "client_hello_step m d =
    Inr (if py_hasattr m (PStr name) = Inr True then Hello ((attrs m)(name \<mapsto> new_value)) (class_names m) else m)"
  using assms(1-4,6)
  by (simp add: client_hello_step_def dict_lookup_getitem setattr_allowed [OF assms(5)]
      del: py_setattr.simps)

lemma server_step_remove:
  assumes "dict_lookup d ''target'' = Some (PStr ''server'')"
      and "dict_lookup d ''mutation_type'' = Some (PStr ''remove_field'')"
      and "dict_lookup d ''fields'' = Some f"
      and "dict_lookup f ''field_name'' = Some (PStr name)"
      and "name \<in> set ALLOWED_FIELD_NAMES"
  shows "server_hello_step m d =
    Inr (if py_hasattr m (PStr name) = Inr True then Hello ((attrs m)(name \<mapsto> PNone)) (class_names m) else m)"
  using assms(1-4)
  by (simp add: server_hello_step_def dict_lookup_getitem setattr_allowed [OF assms(5)]
      del: py_setattr.simps)

lemma server_step_modify:
  assumes "dict_lookup d ''target'' = Some (PStr ''server'')"
      and "dict_lookup d ''mutation_type'' = Some (PStr ''modify_field'')"
      and "dict_lookup d ''fields'' = Some f"
      and "dict_lookup f ''field_name'' = Some (PStr name)"
      and "name \<in> set ALLOWED_FIELD_NAMES"
      and "dict_lookup f ''new_value'' = Some new_value"
  shows "server_hello_step m d =
    Inr (if py_hasattr m (PStr name) = Inr True then Hello ((attrs m)(name \<mapsto> new_value)) (class_names m) else m)"
  using assms(1-4,6)
  by (simp add: server_hello_step_def dict_lookup_getitem setattr_allowed [OF assms(5)]
      del: py_setattr.simps)

lemma client_step_other:
  assumes "dict_lookup d ''target'' = Some t"
      and "dict_lookup d ''mutation_type'' = Some k"
      and "dict_lookup d ''fields'' = Some f"
      and "k \<noteq> PStr ''remove_field''" and "k \<noteq> PStr ''modify_field''"
  shows "client_hello_step m d = Inr m"
  using assms by (simp add: client_hello_step_def dict_lookup_getitem)

lemma server_step_other:
  assumes "dict_lookup d ''target'' = Some t"
      and "dict_lookup d ''mutation_type'' = Some k"
      and "dict_lookup d ''fields'' = Some f"
      and "k \<noteq> PStr ''remove_field''" and "k \<noteq> PStr ''modify_field''"
  shows "server_hello_step m d = Inr m"
  using assms by (simp add: server_hello_step_def dict_lookup_getitem)

lemma mutate_client_hello_snoc:
  "mutate_client_hello pre m = Inr m1 \<Longrightarrow> client_hello_step m1 d = Inr m2 \<Longrightarrow>
    mutate_client_hello (pre @ [d]) m = Inr m2"
  by (simp add: mutate_client_hello_append)

lemma mutate_server_hello_snoc:
  "mutate_server_hello pre m = Inr m1 \<Longrightarrow> server_hello_step m1 d = Inr m2 \<Longrightarrow>
    mutate_server_hello (pre @ [d]) m = Inr m2"
  by (simp add: mutate_server_hello_append)

lemma mutate_client_hello_raises:
  "mutate_client_hello pre m = Inr m1 \<Longrightarrow> client_hello_step m1 d = Inl e \<Longrightarrow>
    mutate_client_hello (pre @ d # post) m = Inl (e, m1)"
  by (simp add: mutate_client_hello_append)

lemma mutate_server_hello_raises:
  "mutate_server_hello pre m = Inr m1 \<Longrightarrow> server_hello_step m1 d = Inl e \<Longrightarrow>
    mutate_server_hello (pre @ d # post) m = Inl (e, m1)"
  by (simp add: mutate_server_hello_append)

lemma client_step_writes:
  assumes "dict_lookup d ''target'' = Some t"
      and "dict_lookup d ''fields'' = Some f"
      and "dict_lookup f ''field_name'' = Some (PStr name)"
      and "name \<in> set ALLOWED_FIELD_NAMES"
      and "dict_lookup d ''mutation_type'' = Some (PStr ''remove_field'') \<or>
           dict_lookup d ''mutation_type'' = Some (PStr ''modify_field'') \<and>
           dict_lookup f ''new_value'' = Some new_value"
  shows "\<exists>v. \<forall>h. client_hello_step h d =
           Inr (if t = PStr ''client'' \<and> py_hasattr h (PStr name) = Inr True
                then Hello ((attrs h)(name \<mapsto> v)) (class_names h) else h)"
proof (cases "t = PStr ''client''")
  case False
  with assms(1) show ?thesis by (simp add: client_step_mismatch)
next
  case True
  from assms(5) show ?thesis
  proof
    assume "dict_lookup d ''mutation_type'' = Some (PStr ''remove_field'')"
    with assms(1-4) True have "\<forall>h. client_hello_step h d =
        Inr (if t = PStr ''client'' \<and> py_hasattr h (PStr name) = Inr True
             then Hello ((attrs h)(name \<mapsto> PNone)) (class_names h) else h)"
      by (simp add: client_step_remove)
    then show ?thesis ..
  next
    assume "dict_lookup d ''mutation_type'' = Some (PStr ''modify_field'') \<and>
           dict_lookup f ''new_value'' = Some new_value"
    with assms(1-4) True have "\<forall>h. client_hello_step h d =
        Inr (if t = PStr ''client'' \<and> py_hasattr h (PStr name) = Inr True
             then Hello ((attrs h)(name \<mapsto> new_value)) (class_names h) else h)"
      by (simp add: client_step_modify)
    then show ?thesis ..
  qed
qed

lemma server_step_writes:
  assumes "dict_lookup d ''target'' = Some t"
      and "dict_lookup d ''fields'' = Some f"
      and "dict_lookup f ''field_name'' = Some (PStr name)"
      and "name \<in> set ALLOWED_FIELD_NAMES"
      and "dict_lookup d ''mutation_type'' = Some (PStr ''remove_field'') \<or>
           dict_lookup d ''mutation_type'' = Some (PStr ''modify_field'') \<and>
           dict_lookup f ''new_value'' = Some new_value"
  shows "\<exists>v. \<forall>h. server_hello_step h d =
           Inr (if t = PStr ''server'' \<and> py_hasattr h (PStr name) = Inr True
                then Hello ((attrs h)(name \<mapsto> v)) (class_names h) else h)"
proof (cases "t = PStr ''server''")
  case False
  with assms(1) show ?thesis by (simp add: server_step_mismatch)
next
  case True
  from assms(5) show ?thesis
  proof
    assume "dict_lookup d ''mutation_type'' = Some (PStr ''remove_field'')"
    with assms(1-4) True have "\<forall>h. server_hello_step h d =
        Inr (if t = PStr ''server'' \<and> py_hasattr h (PStr name) = Inr True
             then Hello ((attrs h)(name \<mapsto> PNone)) (class_names h) else h)"
      by (simp add: server_step_remove)
    then show ?thesis ..
  next
    assume "dict_lookup d ''mutation_type'' = Some (PStr ''modify_field'') \<and>
           dict_lookup f ''new_value'' = Some new_value"
    with assms(1-4) True have "\<forall>h. server_hello_step h d =
        Inr (if t = PStr ''server'' \<and> py_hasattr h (PStr name) = Inr True
             then Hello ((attrs h)(name \<mapsto> new_value)) (class_names h) else h)"
      by (simp add: server_step_modify)
    then show ?thesis ..
  qed
qed

lemma client_step_no_kind:
  "dict_lookup d ''target'' = Some (PStr ''client'') \<Longrightarrow> dict_lookup d ''mutation_type'' = None \<Longrightarrow>
    client_hello_step h d = Inl (KeyError (PStr ''mutation_type''))"
  by (cases d) (simp_all add: client_hello_step_def)

lemma client_step_no_fields:
  "dict_lookup d ''target'' = Some (PStr ''client'') \<Longrightarrow> dict_lookup d ''mutation_type'' = Some k \<Longrightarrow>
   dict_lookup d ''fields'' = None \<Longrightarrow>
    client_hello_step h d = Inl (KeyError (PStr ''fields''))"
  by (cases d) (simp_all add: client_hello_step_def)

lemma server_step_no_kind:
  "dict_lookup d ''target'' = Some (PStr ''server'') \<Longrightarrow> dict_lookup d ''mutation_type'' = None \<Longrightarrow>
    server_hello_step h d = Inl (KeyError (PStr ''mutation_type''))"
  by (cases d) (simp_all add: server_hello_step_def)

lemma server_step_no_fields:
  "dict_lookup d ''target'' = Some (PStr ''server'') \<Longrightarrow> dict_lookup d ''mutation_type'' = Some k \<Longrightarrow>
   dict_lookup d ''fields'' = None \<Longrightarrow>
    server_hello_step h d = Inl (KeyError (PStr ''fields''))"
  by (cases d) (simp_all add: server_hello_step_def)

section \<open>Lemmas about the validator\<close>

lemma in_strs_iff: "in_strs v names = (v \<in> PStr ` set names)"
  by (cases v) auto

lemma in_keys_format:
  "is_scalar k \<Longrightarrow> in_keys k MUTATIONS_FORMAT = Inr (kind_check k = None)"
  by (cases k) (auto simp: MUTATIONS_FORMAT_def kind_check_def)

lemma target_check_iff: "in_strs t [''client'', ''server''] = (target_check t = None)"
  by (cases t) (auto simp: target_check_def)

lemma key_lookup_format:
  "kind_check k = None \<Longrightarrow> key_lookup MUTATIONS_FORMAT k = Inr (required_parameters k)"
  by (auto simp: kind_check_def MUTATIONS_FORMAT_def required_parameters_def split: if_splits)

lemma check_required_fields_spec:
  "is_dict f \<Longrightarrow>
    check_required_fields k f ps =
      (case first_failure (concat (map (\<lambda>p. [presence_check k f p, enum_check f p]) ps)) of
         None \<Rightarrow> Inr ()
       | Some c \<Rightarrow> Inl (ValueError c))"
proof (induction ps)
  case Nil
  then show ?case by simp
next
  case (Cons p ps)
  from Cons.prems obtain kvs where f: "f = PDict kvs" by (cases f) auto
  show ?case
  proof (cases "map_of kvs p")
    case None
    then show ?thesis by (simp add: f presence_check_def)
  next
    case (Some v)
    then show ?thesis
      using Cons.IH [OF Cons.prems]
      by (auto simp: f presence_check_def enum_check_def in_strs_iff)
  qed
qed

lemma py_get_dict:
  "is_dict e \<Longrightarrow> py_get e k d = Inr (case dict_lookup e k of None \<Rightarrow> d | Some v \<Rightarrow> v)"
  by (cases e) auto

lemma validate_entry_spec:
  assumes "wire_shaped e"
  shows "validate_entry e =
    (case first_violation e of
       Some c \<Rightarrow> Inl (ValueError c)
     | None \<Rightarrow> Inr (descriptor_of e))"
proof -
  from assms have d: "is_dict e" and s: "is_scalar (wire_kind e)" and fd: "is_dict (wire_fields e)"
    by (simp_all add: wire_shaped_def)
  have g1: "py_get e ''mutation'' PNone = Inr (wire_kind e)"
    and g2: "py_get e ''target'' PNone = Inr (wire_target e)"
    and g3: "py_get e ''fields'' (PDict []) = Inr (wire_fields e)"
    using d by (simp_all add: py_get_dict wire_kind_def wire_target_def wire_fields_def)
  show ?thesis
  proof (cases "kind_check (wire_kind e)")
    case (Some c)
    then show ?thesis
      by (simp add: validate_entry_def g1 g2 g3 in_keys_format [OF s] first_violation_def
          spec_checks_def kind_check_def split: if_splits)
  next
    case None
    note k = this
    show ?thesis
    proof (cases "target_check (wire_target e)")
      case (Some c)
      then show ?thesis
        by (simp add: validate_entry_def g1 g2 g3 in_keys_format [OF s] k first_violation_def
            spec_checks_def target_check_iff target_check_def split: if_splits)
    next
      case None
      then show ?thesis
        by (simp add: validate_entry_def g1 g2 g3 in_keys_format [OF s] k first_violation_def
            spec_checks_def target_check_iff key_lookup_format [OF k]
            check_required_fields_spec [OF fd] descriptor_of_def split: option.splits)
    qed
  qed
qed


lemma py_get_Inr: "py_get e k d = Inr v \<Longrightarrow> is_dict e"
  by (cases e) auto

lemma in_keys_True:
  "in_keys k MUTATIONS_FORMAT = Inr True \<Longrightarrow>
     k \<in> PStr ` {''identity'', ''remove_field'', ''modify_field'', ''send_additional_packet''}"
  by (cases k) (auto simp: MUTATIONS_FORMAT_def split: if_splits)

lemma in_strs_not_None: "in_strs v names \<Longrightarrow> v \<noteq> PNone"
  by (cases v) auto

lemma validate_entry_Inr:
  assumes "validate_entry e = Inr d"
  shows "is_dict e" and "d = descriptor_of e"
    and "wire_kind e \<in> PStr ` {''identity'', ''remove_field'', ''modify_field'', ''send_additional_packet''}"
    and "wire_target e = PStr ''client'' \<or> wire_target e = PStr ''server''"
    and "check_required_fields (wire_kind e) (wire_fields e) (required_parameters (wire_kind e)) = Inr ()"
proof -
  show d: "is_dict e"
    using assms by (auto simp: validate_entry_def split: sum.splits dest: py_get_Inr)
  have g1: "py_get e ''mutation'' PNone = Inr (wire_kind e)"
    and g2: "py_get e ''target'' PNone = Inr (wire_target e)"
    and g3: "py_get e ''fields'' (PDict []) = Inr (wire_fields e)"
    using d by (simp_all add: py_get_dict wire_kind_def wire_target_def wire_fields_def)
  from assms have k: "in_keys (wire_kind e) MUTATIONS_FORMAT = Inr True"
    by (simp add: validate_entry_def g1 g2 g3 split: sum.splits if_splits)
  then show kk: "wire_kind e \<in> PStr ` {''identity'', ''remove_field'', ''modify_field'', ''send_additional_packet''}"
    by (rule in_keys_True)
  then have kc: "kind_check (wire_kind e) = None"
    by (simp add: kind_check_def)
  from assms k have t: "in_strs (wire_target e) [''client'', ''server'']"
    by (simp add: validate_entry_def g1 g2 g3 split: sum.splits if_splits)
  then show "wire_target e = PStr ''client'' \<or> wire_target e = PStr ''server''"
    by (simp add: target_check_iff target_check_def split: if_splits)
  from assms k t show "check_required_fields (wire_kind e) (wire_fields e) (required_parameters (wire_kind e)) = Inr ()"
    by (simp add: validate_entry_def g1 g2 g3 key_lookup_format [OF kc] split: sum.splits)
  from assms k t show "d = descriptor_of e"
    by (auto simp: validate_entry_def g1 g2 g3 key_lookup_format [OF kc] descriptor_of_def split: sum.splits)
qed

lemma wire_kind_present:
  "wire_kind e \<in> PStr ` S \<Longrightarrow> dict_lookup e ''mutation'' \<noteq> None"
  by (auto simp: wire_kind_def split: option.splits)

lemma wire_target_present:
  "wire_target e = PStr a \<or> wire_target e = PStr b \<Longrightarrow> dict_lookup e ''target'' \<noteq> None"
  by (auto simp: wire_target_def split: option.splits)

lemma parse_loop_Inr:
  "parse_loop xs acc = Inr ds \<Longrightarrow>
     ds = acc @ map descriptor_of xs \<and> (\<forall>e\<in>set xs. validate_entry e = Inr (descriptor_of e))"
proof (induction xs arbitrary: acc)
  case Nil
  then show ?case by simp
next
  case (Cons x xs)
  from Cons.prems obtain d where v: "validate_entry x = Inr d"
    and r: "parse_loop xs (acc @ [d]) = Inr ds"
    by (auto split: sum.splits)
  from v have "d = descriptor_of x" by (rule validate_entry_Inr)
  with v Cons.IH [OF r] show ?case by simp
qed

lemma parse_loop_all_ok:
  "\<forall>e\<in>set xs. validate_entry e = Inr (descriptor_of e) \<Longrightarrow>
     parse_loop xs acc = Inr (acc @ map descriptor_of xs)"
  by (induction xs arbitrary: acc) simp_all

lemma parse_loop_fails:
  "\<forall>e\<in>set pre. validate_entry e = Inr (descriptor_of e) \<Longrightarrow> validate_entry bad = Inl err \<Longrightarrow>
     parse_loop (pre @ bad # rest) acc = Inl err"
  by (induction pre arbitrary: acc) simp_all

lemma first_failure_None_iff: "first_failure cs = None \<longleftrightarrow> (\<forall>c\<in>set cs. c = None)"
  by (induction cs rule: first_failure.induct) auto

lemma in_strs_enum_field:
  "dict_lookup f ''field_name'' = Some v \<Longrightarrow> \<not> in_strs v ALLOWED_FIELD_NAMES \<Longrightarrow>
     enum_check f ''field_name'' = Some (InvalidFieldName v)"
  by (simp add: enum_check_def in_strs_iff)

lemma in_strs_enum_packet:
  "dict_lookup f ''packet_type'' = Some v \<Longrightarrow> \<not> in_strs v ALLOWED_PACKET_TYPES \<Longrightarrow>
     enum_check f ''packet_type'' = Some (InvalidPacketType v)"
  by (simp add: enum_check_def in_strs_iff)

lemma field_name_check_listed:
  "wire_kind e = PStr ''remove_field'' \<or> wire_kind e = PStr ''modify_field'' \<Longrightarrow>
     enum_check (wire_fields e) ''field_name'' \<in> set (spec_checks e)"
  by (auto simp: spec_checks_def required_parameters_def)

lemma packet_type_check_listed:
  "wire_kind e = PStr ''send_additional_packet'' \<Longrightarrow>
     enum_check (wire_fields e) ''packet_type'' \<in> set (spec_checks e)"
  by (simp add: spec_checks_def required_parameters_def)

lemma required_bad_enum_violation:
  assumes "required_bad_enum e"
  shows "first_violation e \<noteq> None"
proof -
  from assms consider
    (field) v where "wire_kind e = PStr ''remove_field'' \<or> wire_kind e = PStr ''modify_field''"
      and "dict_lookup (wire_fields e) ''field_name'' = Some v"
      and "\<not> in_strs v ALLOWED_FIELD_NAMES"
  | (packet) v where "wire_kind e = PStr ''send_additional_packet''"
      and "dict_lookup (wire_fields e) ''packet_type'' = Some v"
      and "\<not> in_strs v ALLOWED_PACKET_TYPES"
    unfolding required_bad_enum_def by (auto split: option.splits)
  then have "\<exists>c. Some c \<in> set (spec_checks e)"
  proof cases
    case field
    from field(2,3) have "enum_check (wire_fields e) ''field_name'' = Some (InvalidFieldName v)"
      by (rule in_strs_enum_field)
    with field_name_check_listed [OF field(1)] show ?thesis by metis
  next
    case packet
    from packet(2,3) have "enum_check (wire_fields e) ''packet_type'' = Some (InvalidPacketType v)"
      by (rule in_strs_enum_packet)
    with packet_type_check_listed [OF packet(1)] show ?thesis by metis
  qed
  then show ?thesis
    by (auto simp: first_violation_def first_failure_None_iff)
qed

lemma validate_wire_shaped:
  "wire_shaped e \<Longrightarrow>
     validate_entry e = Inr (descriptor_of e) \<or> (\<exists>c. validate_entry e = Inl (ValueError c))"
  by (simp add: validate_entry_spec split: option.splits)

lemma parse_loop_wire_shaped_fails:
  "\<forall>e\<in>set pre. wire_shaped e \<Longrightarrow> validate_entry bad = Inl (ValueError c) \<Longrightarrow>
     \<exists>c'. parse_loop (pre @ bad # rest) acc = Inl (ValueError c')"
proof (induction pre arbitrary: acc)
  case Nil
  then show ?case by simp
next
  case (Cons x pre)
  from Cons.prems(1) have "wire_shaped x" by simp
  then consider "validate_entry x = Inr (descriptor_of x)" | c0 where "validate_entry x = Inl (ValueError c0)"
    using validate_wire_shaped by blast
  then show ?case
  proof cases
    case 1
    with Cons.IH [of "acc @ [descriptor_of x]"] Cons.prems show ?thesis by simp
  next
    case 2
    then show ?thesis by simp
  qed
qed










section \<open>Lemmas about validated descriptors in the engine\<close>

lemma py_contains_getitem:
  "py_contains f p = Inr True \<Longrightarrow> py_getitem f p = Inr v \<Longrightarrow> dict_lookup f p = Some v"
  by (cases f) (auto split: option.splits)

lemma in_strs_PStr: "in_strs v names \<Longrightarrow> \<exists>name. v = PStr name \<and> name \<in> set names"
  by (cases v) auto

lemma checked_field_name:
  assumes "check_required_fields k f (''field_name'' # ps) = Inr ()"
  shows "\<exists>name. dict_lookup f ''field_name'' = Some (PStr name) \<and> name \<in> set ALLOWED_FIELD_NAMES"
    and "check_required_fields k f ps = Inr ()"
proof -
  from assms obtain v where c: "py_contains f ''field_name'' = Inr True"
    and g: "py_getitem f ''field_name'' = Inr v" and a: "in_strs v ALLOWED_FIELD_NAMES"
    and r: "check_required_fields k f ps = Inr ()"
    by (auto split: sum.splits if_splits)
  from r show "check_required_fields k f ps = Inr ()" .
  from a obtain name where "v = PStr name" and "name \<in> set ALLOWED_FIELD_NAMES"
    using in_strs_PStr by blast
  with py_contains_getitem [OF c g]
  show "\<exists>name. dict_lookup f ''field_name'' = Some (PStr name) \<and> name \<in> set ALLOWED_FIELD_NAMES"
    by simp
qed

lemma checked_new_value:
  assumes "check_required_fields k f [''new_value''] = Inr ()"
  shows "is_dict f \<longrightarrow> dict_lookup f ''new_value'' \<noteq> None"
  using assms by (cases f) (auto split: sum.splits if_splits)

lemma validated_descriptor_lookups:
  assumes "validate_entry e = Inr d"
  shows "dict_lookup d ''mutation_type'' = Some (wire_kind e)"
    and "dict_lookup d ''target'' = Some (wire_target e)"
    and "dict_lookup d ''fields'' = Some (wire_fields e)"
  using validate_entry_Inr(2) [OF assms] by (simp_all add: descriptor_of_def)

lemma validated_client_step:
  assumes "validate_entry e = Inr d"
  shows "\<exists>h'. client_hello_step h d = Inr h'"
proof -
  note l = validated_descriptor_lookups [OF assms]
  note c = validate_entry_Inr(5) [OF assms]
  from validate_entry_Inr(3) [OF assms] consider
    "wire_kind e = PStr ''identity''" | "wire_kind e = PStr ''remove_field''" |
    "wire_kind e = PStr ''modify_field''" | "wire_kind e = PStr ''send_additional_packet''"
    by auto
  then show ?thesis
  proof cases
    case 1
    with l show ?thesis by (simp add: client_step_other)
  next
    case 2
    then have "required_parameters (wire_kind e) = [''field_name'']"
      by (simp add: required_parameters_def)
    with c have c': "check_required_fields (wire_kind e) (wire_fields e) [''field_name''] = Inr ()"
      by (simp only:)
    from checked_field_name(1) [OF c'] obtain name where
      n: "dict_lookup (wire_fields e) ''field_name'' = Some (PStr name)"
      and a: "name \<in> set ALLOWED_FIELD_NAMES" by blast
    from client_step_writes [OF l(2) l(3) n a, of PNone] 2 l(1) show ?thesis by auto
  next
    case 3
    then have "required_parameters (wire_kind e) = [''field_name'', ''new_value'']"
      by (simp add: required_parameters_def)
    with c have c': "check_required_fields (wire_kind e) (wire_fields e) [''field_name'', ''new_value''] = Inr ()"
      by (simp only:)
    from checked_field_name [OF c'] obtain name where
      n: "dict_lookup (wire_fields e) ''field_name'' = Some (PStr name)"
      and a: "name \<in> set ALLOWED_FIELD_NAMES"
      and r: "check_required_fields (wire_kind e) (wire_fields e) [''new_value''] = Inr ()"
      by blast
    from n have "is_dict (wire_fields e)" by (cases "wire_fields e") auto
    with checked_new_value [OF r] obtain v where v: "dict_lookup (wire_fields e) ''new_value'' = Some v"
      by auto
    from client_step_writes [OF l(2) l(3) n a, of v] 3 l(1) v show ?thesis by auto
  next
    case 4
    with l show ?thesis by (simp add: client_step_other)
  qed
qed

lemma validated_server_step:
  assumes "validate_entry e = Inr d"
  shows "\<exists>h'. server_hello_step h d = Inr h'"
proof -
  note l = validated_descriptor_lookups [OF assms]
  note c = validate_entry_Inr(5) [OF assms]
  from validate_entry_Inr(3) [OF assms] consider
    "wire_kind e = PStr ''identity''" | "wire_kind e = PStr ''remove_field''" |
    "wire_kind e = PStr ''modify_field''" | "wire_kind e = PStr ''send_additional_packet''"
    by auto
  then show ?thesis
  proof cases
    case 1
    with l show ?thesis by (simp add: server_step_other)
  next
    case 2
    then have "required_parameters (wire_kind e) = [''field_name'']"
      by (simp add: required_parameters_def)
    with c have c': "check_required_fields (wire_kind e) (wire_fields e) [''field_name''] = Inr ()"
      by (simp only:)
    from checked_field_name(1) [OF c'] obtain name where
      n: "dict_lookup (wire_fields e) ''field_name'' = Some (PStr name)"
      and a: "name \<in> set ALLOWED_FIELD_NAMES" by blast
    from server_step_writes [OF l(2) l(3) n a, of PNone] 2 l(1) show ?thesis by auto
  next
    case 3
    then have "required_parameters (wire_kind e) = [''field_name'', ''new_value'']"
      by (simp add: required_parameters_def)
    with c have c': "check_required_fields (wire_kind e) (wire_fields e) [''field_name'', ''new_value''] = Inr ()"
      by (simp only:)
    from checked_field_name [OF c'] obtain name where
      n: "dict_lookup (wire_fields e) ''field_name'' = Some (PStr name)"
      and a: "name \<in> set ALLOWED_FIELD_NAMES"
      and r: "check_required_fields (wire_kind e) (wire_fields e) [''new_value''] = Inr ()"
      by blast
    from n have "is_dict (wire_fields e)" by (cases "wire_fields e") auto
    with checked_new_value [OF r] obtain v where v: "dict_lookup (wire_fields e) ''new_value'' = Some v"
      by auto
    from server_step_writes [OF l(2) l(3) n a, of v] 3 l(1) v show ?thesis by auto
  next
    case 4
    with l show ?thesis by (simp add: server_step_other)
  qed
qed

lemma mutate_client_hello_returns:
  "\<forall>d\<in>set ds. \<forall>h. \<exists>h'. client_hello_step h d = Inr h' \<Longrightarrow> \<exists>m'. mutate_client_hello ds m = Inr m'"
proof (induction ds arbitrary: m)
  case Nil
  then show ?case by simp
next
  case (Cons d ds)
  from Cons.prems have "\<forall>h. \<exists>h'. client_hello_step h d = Inr h'" by simp
  then obtain h' where "client_hello_step m d = Inr h'" by blast
  with Cons.IH [of h'] Cons.prems show ?case by simp
qed

lemma mutate_server_hello_returns:
  "\<forall>d\<in>set ds. \<forall>h. \<exists>h'. server_hello_step h d = Inr h' \<Longrightarrow> \<exists>m'. mutate_server_hello ds m = Inr m'"
proof (induction ds arbitrary: m)
  case Nil
  then show ?case by simp
next
  case (Cons d ds)
  from Cons.prems have "\<forall>h. \<exists>h'. server_hello_step h d = Inr h'" by simp
  then obtain h' where "server_hello_step m d = Inr h'" by blast
  with Cons.IH [of h'] Cons.prems show ?case by simp
qed

lemma parsed_are_validated:
  assumes "parse_mutation_params json_loads param_str = Inr ds"
  shows "\<forall>d\<in>set ds. \<exists>e. validate_entry e = Inr d"
proof -
  from assms obtain entries where "parse_loop entries [] = Inr ds"
    by (auto simp: parse_mutation_params_def split: sum.splits)
  from parse_loop_Inr [OF this] show ?thesis by auto
qed

section \<open>The claims\<close>





text \<open>
  C3. A descriptor whose \<^verbatim>\<open>target\<close> is not the role of the call changes nothing: the
  call on a list with the descriptor in it gives what the call on the list without it
  gives, for every message and every list around it. The target is the first thing the
  engine reads, so this holds whatever else the descriptor has or lacks.
\<close>

theorem mismatched_target_is_skipped:
  assumes "dict_lookup d ''target'' = Some t"
  shows "(t \<noteq> PStr ''client'' \<longrightarrow>
            mutate_client_hello (pre @ d # post) m = mutate_client_hello (pre @ post) m) \<and>
         (t \<noteq> PStr ''server'' \<longrightarrow>
            mutate_server_hello (pre @ d # post) m = mutate_server_hello (pre @ post) m)"
proof (intro conjI impI)
  assume "t \<noteq> PStr ''client''"
  then have "\<And>h. client_hello_step h d = Inr h"
    using assms by (rule client_step_mismatch [rotated])
  then show "mutate_client_hello (pre @ d # post) m = mutate_client_hello (pre @ post) m"
    by (rule client_skip)
next
  assume "t \<noteq> PStr ''server''"
  then have "\<And>h. server_hello_step h d = Inr h"
    using assms by (rule server_step_mismatch [rotated])
  then show "mutate_server_hello (pre @ d # post) m = mutate_server_hello (pre @ post) m"
    by (rule server_skip)
qed

theorem mismatched_target_is_skipped_witness:
  "dict_lookup modify_random ''target'' = Some (PStr ''server'') \<and>
   mutate_client_hello ([remove_alpn] @ modify_random # [modify_server_name]) example_hello =
     mutate_client_hello ([remove_alpn] @ [modify_server_name]) example_hello \<and>
   dict_lookup remove_alpn ''target'' = Some (PStr ''client'') \<and>
   mutate_server_hello ([] @ remove_alpn # [modify_random]) example_hello =
     mutate_server_hello ([] @ [modify_random]) example_hello"
proof -
  have t1: "dict_lookup modify_random ''target'' = Some (PStr ''server'')"
    by (simp add: modify_random_def)
  have t2: "dict_lookup remove_alpn ''target'' = Some (PStr ''client'')"
    by (simp add: remove_alpn_def)
  from mismatched_target_is_skipped [OF t1, of "[remove_alpn]" "[modify_server_name]" example_hello]
    mismatched_target_is_skipped [OF t2, of "[]" "[modify_random]" example_hello] t1 t2
  show ?thesis
    by simp
qed

text \<open>
  C4. When the text decodes to an array: if every entry has the shape of the wire format
  and violates no check of the specification, \<^verbatim>\<open>parse_mutation_params\<close> returns a list;
  and whenever it returns a list, the list is as long as the array and its \<open>i\<close>-th
  element is the descriptor of the \<open>i\<close>-th entry, which holds the entry's kind, its
  target (both present in the entry) and its whole \<^verbatim>\<open>fields\<close> value as it stands.
\<close>

theorem parse_keeps_length_order_and_content:
  assumes "json_loads param_str = Inr (PList entries)"
  shows "((\<forall>e\<in>set entries. wire_shaped e \<and> first_violation e = None) \<longrightarrow>
            (\<exists>ds. parse_mutation_params json_loads param_str = Inr ds)) \<and>
         (\<forall>ds. parse_mutation_params json_loads param_str = Inr ds \<longrightarrow>
            length ds = length entries \<and>
            (\<forall>i<length entries.
               ds ! i = descriptor_of (entries ! i) \<and>
               dict_lookup (entries ! i) ''mutation'' \<noteq> None \<and>
               dict_lookup (entries ! i) ''target'' \<noteq> None))"
proof (intro conjI impI allI)
  have p: "parse_mutation_params json_loads param_str = parse_loop entries []"
    using assms by (simp add: parse_mutation_params_def)
  {
  assume "\<forall>e\<in>set entries. wire_shaped e \<and> first_violation e = None"
  then have "\<forall>e\<in>set entries. validate_entry e = Inr (descriptor_of e)"
    by (simp add: validate_entry_spec)
  then have "parse_loop entries [] = Inr ([] @ map descriptor_of entries)"
    by (rule parse_loop_all_ok)
  then show "\<exists>ds. parse_mutation_params json_loads param_str = Inr ds"
    by (simp add: p)
  }
  fix ds
  assume "parse_mutation_params json_loads param_str = Inr ds"
  then have "parse_loop entries [] = Inr ds"
    by (simp add: p)
  then have ds: "ds = map descriptor_of entries"
    and ok: "\<forall>e\<in>set entries. validate_entry e = Inr (descriptor_of e)"
    using parse_loop_Inr [of entries "[]" ds] by simp_all
  show "length ds = length entries" by (simp add: ds)
  fix i
  assume i: "i < length entries"
  then have v: "validate_entry (entries ! i) = Inr (descriptor_of (entries ! i))"
    using ok by simp
  show "ds ! i = descriptor_of (entries ! i)" using i by (simp add: ds)
  show "dict_lookup (entries ! i) ''mutation'' \<noteq> None"
    using validate_entry_Inr(3) [OF v] by (rule wire_kind_present)
  show "dict_lookup (entries ! i) ''target'' \<noteq> None"
    using validate_entry_Inr(4) [OF v] by (rule wire_target_present)
qed

theorem parse_keeps_length_order_and_content_witness:
  "wire_shaped wire_remove_alpn \<and> first_violation wire_remove_alpn = None \<and>
   wire_shaped wire_modify_random \<and> first_violation wire_modify_random = None \<and>
   (\<exists>ds. parse_mutation_params example_loads ''scenario'' = Inr ds \<and>
         length ds = 2 \<and> ds ! 0 = remove_alpn \<and> ds ! 1 = modify_random)"
proof -
  have l: "example_loads ''scenario'' = Inr (PList [wire_remove_alpn, wire_modify_random])"
    by (simp add: example_loads_def)
  have v1: "wire_shaped wire_remove_alpn \<and> first_violation wire_remove_alpn = None"
    by (simp add: wire_remove_alpn_def wire_shaped_def wire_kind_def wire_fields_def wire_target_def
        first_violation_def spec_checks_def kind_check_def target_check_def required_parameters_def
        presence_check_def enum_check_def ALLOWED_FIELD_NAMES_def)
  have v2: "wire_shaped wire_modify_random \<and> first_violation wire_modify_random = None"
    by (simp add: wire_modify_random_def wire_shaped_def wire_kind_def wire_fields_def wire_target_def
        first_violation_def spec_checks_def kind_check_def target_check_def required_parameters_def
        presence_check_def enum_check_def ALLOWED_FIELD_NAMES_def)
  have d1: "descriptor_of wire_remove_alpn = remove_alpn"
    by (simp add: descriptor_of_def wire_remove_alpn_def remove_alpn_def wire_kind_def wire_fields_def
        wire_target_def)
  have d2: "descriptor_of wire_modify_random = modify_random"
    by (simp add: descriptor_of_def wire_modify_random_def modify_random_def wire_kind_def wire_fields_def
        wire_target_def)
  note t = parse_keeps_length_order_and_content
    [where json_loads = example_loads and param_str = "''scenario''", OF l]
  from t v1 v2 obtain ds where
    ds: "parse_mutation_params example_loads ''scenario'' = Inr ds"
    by auto
  with t have "length ds = 2" and "ds ! 0 = descriptor_of wire_remove_alpn"
    and "ds ! 1 = descriptor_of wire_modify_random"
    by force+
  with ds v1 v2 d1 d2 show ?thesis
    by simp
qed

text \<open>
  C5. The validator fails fast, in the order of the specification. When the text
  decodes to an array in which the entries before some entry are valid, and the first
  check that this entry fails (in the order: kind, target, then presence and enumeration
  of each required parameter in the declared order) has cause \<open>c\<close>, then
  \<^verbatim>\<open>parse_mutation_params\<close> raises the \<^verbatim>\<open>ValueError\<close> of cause \<open>c\<close> alone, whatever
  the entry's later checks and the entries after it would give, and returns no list.
\<close>

theorem validation_fails_fast_in_order:
  assumes "json_loads param_str = Inr (PList (pre @ bad # rest))"
      and "\<forall>e\<in>set pre. wire_shaped e \<and> first_violation e = None"
      and "wire_shaped bad"
      and "first_violation bad = Some c"
  shows "parse_mutation_params json_loads param_str = Inl (ValueError c)"
proof -
  from assms(2) have "\<forall>e\<in>set pre. validate_entry e = Inr (descriptor_of e)"
    by (simp add: validate_entry_spec)
  moreover from assms(3,4) have "validate_entry bad = Inl (ValueError c)"
    by (simp add: validate_entry_spec)
  ultimately have "parse_loop (pre @ bad # rest) [] = Inl (ValueError c)"
    by (rule parse_loop_fails)
  then show ?thesis
    using assms(1) by (simp add: parse_mutation_params_def)
qed

theorem validation_fails_fast_in_order_witness:
  "example_loads ''second entry invalid'' =
     Inr (PList ([wire_remove_alpn] @ entry_bad_field # [entry_bogus])) \<and>
   wire_shaped wire_remove_alpn \<and> first_violation wire_remove_alpn = None \<and>
   wire_shaped entry_bad_field \<and>
   first_violation entry_bad_field = Some (InvalidFieldName (PStr ''not_a_real_field'')) \<and>
   parse_mutation_params example_loads ''second entry invalid'' =
     Inl (ValueError (InvalidFieldName (PStr ''not_a_real_field'')))"
proof -
  have l: "example_loads ''second entry invalid'' =
     Inr (PList ([wire_remove_alpn] @ entry_bad_field # [entry_bogus]))"
    by (simp add: example_loads_def)
  have v1: "wire_shaped wire_remove_alpn \<and> first_violation wire_remove_alpn = None"
    by (simp add: wire_remove_alpn_def wire_shaped_def wire_kind_def wire_fields_def wire_target_def
        first_violation_def spec_checks_def kind_check_def target_check_def required_parameters_def
        presence_check_def enum_check_def ALLOWED_FIELD_NAMES_def)
  then have v1': "\<forall>e\<in>set [wire_remove_alpn]. wire_shaped e \<and> first_violation e = None"
    by simp
  have v2: "wire_shaped entry_bad_field"
    by (simp add: entry_bad_field_def wire_shaped_def wire_kind_def wire_fields_def)
  have v3: "first_violation entry_bad_field = Some (InvalidFieldName (PStr ''not_a_real_field''))"
    by (simp add: entry_bad_field_def wire_kind_def wire_fields_def wire_target_def
        first_violation_def spec_checks_def kind_check_def target_check_def required_parameters_def
        presence_check_def enum_check_def ALLOWED_FIELD_NAMES_def)
  from validation_fails_fast_in_order
    [where json_loads = example_loads and param_str = "''second entry invalid''", OF l v1' v2 v3]
    l v1 v2 v3
  show ?thesis
    by simp
qed

text \<open>
  C6, as claimed: the parse fails whenever an entry supplies a \<^verbatim>\<open>field_name\<close> outside
  the field names or a \<^verbatim>\<open>packet_type\<close> outside the packet types, whatever the entry's
  kind. It does not: an \<^verbatim>\<open>identity\<close> entry that supplies the field name
  \<^verbatim>\<open>not_a_real_field\<close> is accepted, and the name is passed through into the descriptor.
\<close>

theorem unrequired_field_name_is_not_checked:
  "supplies_bad_enum entry_identity_extra \<and>
   example_loads ''identity with field_name'' = Inr (PList [entry_identity_extra]) \<and>
   parse_mutation_params example_loads ''identity with field_name'' =
     Inr [PDict [(''mutation_type'', PStr ''identity''), (''target'', PStr ''client''),
                 (''fields'', PDict [(''field_name'', PStr ''not_a_real_field'')])]]"
  by (simp add: supplies_bad_enum_def entry_identity_extra_def wire_fields_def ALLOWED_FIELD_NAMES_def
      example_loads_def parse_mutation_params_def validate_entry_def MUTATIONS_FORMAT_def)

text \<open>
  C6, amended. The two enumerations are checked for the parameters the entry's kind
  requires: when the text decodes to an array whose entries up to some entry have the
  shape of the wire format, and that entry is a \<^verbatim>\<open>remove_field\<close> or
  \<^verbatim>\<open>modify_field\<close> entry supplying a \<^verbatim>\<open>field_name\<close> outside the field names, or a
  \<^verbatim>\<open>send_additional_packet\<close> entry supplying a \<^verbatim>\<open>packet_type\<close> outside the packet
  types, then \<^verbatim>\<open>parse_mutation_params\<close> raises a \<^verbatim>\<open>ValueError\<close>.
\<close>

theorem required_enum_violation_fails:
  assumes "json_loads param_str = Inr (PList (pre @ bad # rest))"
      and "\<forall>e\<in>set pre. wire_shaped e"
      and "wire_shaped bad"
      and "required_bad_enum bad"
  shows "\<exists>c. parse_mutation_params json_loads param_str = Inl (ValueError c)"
proof -
  from assms(4) obtain c where "first_violation bad = Some c"
    using required_bad_enum_violation by blast
  with assms(3) have "validate_entry bad = Inl (ValueError c)"
    by (simp add: validate_entry_spec)
  with assms(2) have "\<exists>c'. parse_loop (pre @ bad # rest) [] = Inl (ValueError c')"
    by (rule parse_loop_wire_shaped_fails)
  then show ?thesis
    using assms(1) by (simp add: parse_mutation_params_def)
qed

theorem required_enum_violation_fails_witness:
  "example_loads ''second entry invalid'' =
     Inr (PList ([wire_remove_alpn] @ entry_bad_field # [entry_bogus])) \<and>
   wire_shaped wire_remove_alpn \<and> wire_shaped entry_bad_field \<and> required_bad_enum entry_bad_field \<and>
   (\<exists>c. parse_mutation_params example_loads ''second entry invalid'' = Inl (ValueError c))"
proof -
  have l: "example_loads ''second entry invalid'' =
     Inr (PList ([wire_remove_alpn] @ entry_bad_field # [entry_bogus]))"
    by (simp add: example_loads_def)
  have v1: "wire_shaped wire_remove_alpn"
    by (simp add: wire_remove_alpn_def wire_shaped_def wire_kind_def wire_fields_def)
  then have v1': "\<forall>e\<in>set [wire_remove_alpn]. wire_shaped e"
    by simp
  have v2: "wire_shaped entry_bad_field"
    by (simp add: entry_bad_field_def wire_shaped_def wire_kind_def wire_fields_def)
  have v3: "required_bad_enum entry_bad_field"
    by (simp add: entry_bad_field_def required_bad_enum_def wire_kind_def wire_fields_def
        ALLOWED_FIELD_NAMES_def)
  from required_enum_violation_fails
    [where json_loads = example_loads and param_str = "''second entry invalid''", OF l v1' v2 v3]
    l v1 v2 v3
  show ?thesis
    by simp
qed

text \<open>
  C7. A descriptor that has the three keys and whose kind is neither
  \<^verbatim>\<open>remove_field\<close> nor \<^verbatim>\<open>modify_field\<close> (so \<^verbatim>\<open>identity\<close>,
  \<^verbatim>\<open>send_additional_packet\<close>, and any kind the engine does not know) is ignored by both
  calls: the call on a list with the descriptor in it gives what the call on the list
  without it gives, message and exceptions alike, so the descriptor neither changes a
  field nor raises.
\<close>

theorem other_kinds_are_ignored:
  assumes "dict_lookup d ''target'' = Some t"
      and "dict_lookup d ''mutation_type'' = Some k"
      and "dict_lookup d ''fields'' = Some f"
      and "k \<noteq> PStr ''remove_field''" and "k \<noteq> PStr ''modify_field''"
  shows "mutate_client_hello (pre @ d # post) m = mutate_client_hello (pre @ post) m \<and>
         mutate_server_hello (pre @ d # post) m = mutate_server_hello (pre @ post) m"
proof
  have "\<And>h. client_hello_step h d = Inr h"
    using assms by (rule client_step_other)
  then show "mutate_client_hello (pre @ d # post) m = mutate_client_hello (pre @ post) m"
    by (rule client_skip)
next
  have "\<And>h. server_hello_step h d = Inr h"
    using assms by (rule server_step_other)
  then show "mutate_server_hello (pre @ d # post) m = mutate_server_hello (pre @ post) m"
    by (rule server_skip)
qed

theorem other_kinds_are_ignored_witness:
  "mutate_client_hello
     ([remove_alpn] @
      PDict [(''mutation_type'', PStr ''send_additional_packet''), (''target'', PStr ''client''),
             (''fields'', PDict [(''packet_type'', PStr ''ClientHello''), (''packet_content'', PStr ''00'')])] #
      [modify_server_name]) example_hello =
     mutate_client_hello ([remove_alpn] @ [modify_server_name]) example_hello \<and>
   mutate_server_hello
     ([] @ PDict [(''mutation_type'', PStr ''shuffle''), (''target'', PStr ''server''),
                  (''fields'', PDict [])] # [modify_random]) example_hello =
     mutate_server_hello ([] @ [modify_random]) example_hello"
proof -
  have a: "dict_lookup (PDict [(''mutation_type'', PStr ''send_additional_packet''), (''target'', PStr ''client''),
             (''fields'', PDict [(''packet_type'', PStr ''ClientHello''), (''packet_content'', PStr ''00'')])])
             ''target'' = Some (PStr ''client'')"
    and b: "dict_lookup (PDict [(''mutation_type'', PStr ''send_additional_packet''), (''target'', PStr ''client''),
             (''fields'', PDict [(''packet_type'', PStr ''ClientHello''), (''packet_content'', PStr ''00'')])])
             ''mutation_type'' = Some (PStr ''send_additional_packet'')"
    and c: "dict_lookup (PDict [(''mutation_type'', PStr ''send_additional_packet''), (''target'', PStr ''client''),
             (''fields'', PDict [(''packet_type'', PStr ''ClientHello''), (''packet_content'', PStr ''00'')])])
             ''fields'' = Some (PDict [(''packet_type'', PStr ''ClientHello''), (''packet_content'', PStr ''00'')])"
    and d: "PStr ''send_additional_packet'' \<noteq> PStr ''remove_field''"
    and e: "PStr ''send_additional_packet'' \<noteq> PStr ''modify_field''"
    by simp_all
  have a': "dict_lookup (PDict [(''mutation_type'', PStr ''shuffle''), (''target'', PStr ''server''),
                  (''fields'', PDict [])]) ''target'' = Some (PStr ''server'')"
    and b': "dict_lookup (PDict [(''mutation_type'', PStr ''shuffle''), (''target'', PStr ''server''),
                  (''fields'', PDict [])]) ''mutation_type'' = Some (PStr ''shuffle'')"
    and c': "dict_lookup (PDict [(''mutation_type'', PStr ''shuffle''), (''target'', PStr ''server''),
                  (''fields'', PDict [])]) ''fields'' = Some (PDict [])"
    and d': "PStr ''shuffle'' \<noteq> PStr ''remove_field''"
    and e': "PStr ''shuffle'' \<noteq> PStr ''modify_field''"
    by simp_all
  from other_kinds_are_ignored [OF a b c d e, of "[remove_alpn]" "[modify_server_name]" example_hello]
    other_kinds_are_ignored [OF a' b' c' d' e', of "[]" "[modify_random]" example_hello]
  show ?thesis
    by blast
qed




text \<open>
  C9. Applying one \<^verbatim>\<open>remove_field\<close> descriptor, or one \<^verbatim>\<open>modify_field\<close> descriptor,
  whose \<^verbatim>\<open>field_name\<close> is one of the field names of the vocabulary, to a message returns
  a message, and applying the same descriptor to that message returns it unchanged:
  \<open>apply d (apply d m) = apply d m\<close>, for both calls and whatever the descriptor's
  target.
\<close>

theorem reapplying_is_idempotent:
  assumes "dict_lookup d ''target'' = Some t"
      and "dict_lookup d ''fields'' = Some f"
      and "dict_lookup f ''field_name'' = Some (PStr name)"
      and "name \<in> set ALLOWED_FIELD_NAMES"
      and "dict_lookup d ''mutation_type'' = Some (PStr ''remove_field'') \<or>
           dict_lookup d ''mutation_type'' = Some (PStr ''modify_field'') \<and>
           dict_lookup f ''new_value'' = Some new_value"
  shows "(\<exists>m'. mutate_client_hello [d] m = Inr m' \<and> mutate_client_hello [d] m' = Inr m') \<and>
         (\<exists>m'. mutate_server_hello [d] m = Inr m' \<and> mutate_server_hello [d] m' = Inr m')"
proof
  from client_step_writes [OF assms] obtain v where
    "\<forall>h. client_hello_step h d =
       Inr (if t = PStr ''client'' \<and> py_hasattr h (PStr name) = Inr True
            then Hello ((attrs h)(name \<mapsto> v)) (class_names h) else h)" ..
  then show "\<exists>m'. mutate_client_hello [d] m = Inr m' \<and> mutate_client_hello [d] m' = Inr m'"
    by auto
next
  from server_step_writes [OF assms] obtain v where
    "\<forall>h. server_hello_step h d =
       Inr (if t = PStr ''server'' \<and> py_hasattr h (PStr name) = Inr True
            then Hello ((attrs h)(name \<mapsto> v)) (class_names h) else h)" ..
  then show "\<exists>m'. mutate_server_hello [d] m = Inr m' \<and> mutate_server_hello [d] m' = Inr m'"
    by auto
qed

theorem reapplying_is_idempotent_witness:
  "''alpn_protocols'' \<in> set ALLOWED_FIELD_NAMES \<and>
   mutate_client_hello [remove_alpn] example_hello =
     Inr (Hello ((attrs example_hello)(''alpn_protocols'' \<mapsto> PNone)) (class_names example_hello)) \<and>
   mutate_client_hello [remove_alpn]
       (Hello ((attrs example_hello)(''alpn_protocols'' \<mapsto> PNone)) (class_names example_hello)) =
     Inr (Hello ((attrs example_hello)(''alpn_protocols'' \<mapsto> PNone)) (class_names example_hello)) \<and>
   (\<exists>m'. mutate_server_hello [remove_alpn] example_hello = Inr m' \<and>
         mutate_server_hello [remove_alpn] m' = Inr m')"
proof -
  have h1: "dict_lookup remove_alpn ''target'' = Some (PStr ''client'')"
    and h2: "dict_lookup remove_alpn ''fields'' = Some (PDict [(''field_name'', PStr ''alpn_protocols'')])"
    and h3: "dict_lookup (PDict [(''field_name'', PStr ''alpn_protocols'')]) ''field_name'' =
               Some (PStr ''alpn_protocols'')"
    and h4: "dict_lookup remove_alpn ''mutation_type'' = Some (PStr ''remove_field'') \<or>
             dict_lookup remove_alpn ''mutation_type'' = Some (PStr ''modify_field'') \<and>
             dict_lookup (PDict [(''field_name'', PStr ''alpn_protocols'')]) ''new_value'' = Some PNone"
    by (simp_all add: remove_alpn_def)
  have a: "''alpn_protocols'' \<in> set ALLOWED_FIELD_NAMES"
    by (simp add: ALLOWED_FIELD_NAMES_def)
  have first: "mutate_client_hello [remove_alpn] example_hello =
      Inr (Hello ((attrs example_hello)(''alpn_protocols'' \<mapsto> PNone)) (class_names example_hello))"
    by (simp add: remove_alpn_def client_hello_step_def example_hello_def)
  from reapplying_is_idempotent [OF h1 h2 h3 a h4, of example_hello] first a
  show ?thesis
    by auto
qed

text \<open>
  C10. The engine reads the keys \<^verbatim>\<open>mutation_type\<close> and \<^verbatim>\<open>fields\<close> that
  \<^verbatim>\<open>parse_mutation_params\<close> writes. On every list the parse returns, both calls return
  a message, whatever the message. On a descriptor whose target matches the role and
  which has no \<^verbatim>\<open>mutation_type\<close> key (a raw wire entry, keyed \<^verbatim>\<open>mutation\<close>), the
  call raises \<^verbatim>\<open>KeyError\<close> for that key, and with that key but no \<^verbatim>\<open>fields\<close> key it
  raises \<^verbatim>\<open>KeyError\<close> for \<^verbatim>\<open>fields\<close>; the message is then as the descriptors before
  have left it.
\<close>

theorem engine_reads_the_descriptor_keys:
  "(parse_mutation_params json_loads param_str = Inr ds \<longrightarrow>
      (\<exists>m'. mutate_client_hello ds m = Inr m') \<and> (\<exists>m'. mutate_server_hello ds m = Inr m')) \<and>
   (dict_lookup d ''target'' = Some (PStr ''client'') \<and> mutate_client_hello pre m = Inr m1 \<longrightarrow>
      (dict_lookup d ''mutation_type'' = None \<longrightarrow>
         mutate_client_hello (pre @ d # post) m = Inl (KeyError (PStr ''mutation_type''), m1)) \<and>
      (dict_lookup d ''mutation_type'' \<noteq> None \<and> dict_lookup d ''fields'' = None \<longrightarrow>
         mutate_client_hello (pre @ d # post) m = Inl (KeyError (PStr ''fields''), m1))) \<and>
   (dict_lookup d ''target'' = Some (PStr ''server'') \<and> mutate_server_hello pre m = Inr m1 \<longrightarrow>
      (dict_lookup d ''mutation_type'' = None \<longrightarrow>
         mutate_server_hello (pre @ d # post) m = Inl (KeyError (PStr ''mutation_type''), m1)) \<and>
      (dict_lookup d ''mutation_type'' \<noteq> None \<and> dict_lookup d ''fields'' = None \<longrightarrow>
         mutate_server_hello (pre @ d # post) m = Inl (KeyError (PStr ''fields''), m1)))"
proof (intro conjI impI)
  assume p: "parse_mutation_params json_loads param_str = Inr ds"
  from parsed_are_validated [OF p] have "\<forall>d\<in>set ds. \<forall>h. \<exists>h'. client_hello_step h d = Inr h'"
    using validated_client_step by blast
  then show "\<exists>m'. mutate_client_hello ds m = Inr m'"
    by (rule mutate_client_hello_returns)
  from parsed_are_validated [OF p] have "\<forall>d\<in>set ds. \<forall>h. \<exists>h'. server_hello_step h d = Inr h'"
    using validated_server_step by blast
  then show "\<exists>m'. mutate_server_hello ds m = Inr m'"
    by (rule mutate_server_hello_returns)
next
  assume a: "dict_lookup d ''target'' = Some (PStr ''client'') \<and> mutate_client_hello pre m = Inr m1"
    and n: "dict_lookup d ''mutation_type'' = None"
  then have "client_hello_step m1 d = Inl (KeyError (PStr ''mutation_type''))"
    by (simp add: client_step_no_kind)
  with a show "mutate_client_hello (pre @ d # post) m = Inl (KeyError (PStr ''mutation_type''), m1)"
    by (simp add: mutate_client_hello_raises)
next
  assume a: "dict_lookup d ''target'' = Some (PStr ''client'') \<and> mutate_client_hello pre m = Inr m1"
    and n: "dict_lookup d ''mutation_type'' \<noteq> None \<and> dict_lookup d ''fields'' = None"
  then have "client_hello_step m1 d = Inl (KeyError (PStr ''fields''))"
    by (auto simp: client_step_no_fields)
  with a show "mutate_client_hello (pre @ d # post) m = Inl (KeyError (PStr ''fields''), m1)"
    by (simp add: mutate_client_hello_raises)
next
  assume a: "dict_lookup d ''target'' = Some (PStr ''server'') \<and> mutate_server_hello pre m = Inr m1"
    and n: "dict_lookup d ''mutation_type'' = None"
  then have "server_hello_step m1 d = Inl (KeyError (PStr ''mutation_type''))"
    by (simp add: server_step_no_kind)
  with a show "mutate_server_hello (pre @ d # post) m = Inl (KeyError (PStr ''mutation_type''), m1)"
    by (simp add: mutate_server_hello_raises)
next
  assume a: "dict_lookup d ''target'' = Some (PStr ''server'') \<and> mutate_server_hello pre m = Inr m1"
    and n: "dict_lookup d ''mutation_type'' \<noteq> None \<and> dict_lookup d ''fields'' = None"
  then have "server_hello_step m1 d = Inl (KeyError (PStr ''fields''))"
    by (auto simp: server_step_no_fields)
  with a show "mutate_server_hello (pre @ d # post) m = Inl (KeyError (PStr ''fields''), m1)"
    by (simp add: mutate_server_hello_raises)
qed

theorem engine_reads_the_descriptor_keys_witness:
  "parse_mutation_params example_loads ''scenario'' = Inr [remove_alpn, modify_random] \<and>
   (\<exists>m'. mutate_client_hello [remove_alpn, modify_random] example_hello = Inr m') \<and>
   (\<exists>m'. mutate_server_hello [remove_alpn, modify_random] example_hello = Inr m') \<and>
   dict_lookup wire_remove_alpn ''target'' = Some (PStr ''client'') \<and>
   dict_lookup wire_remove_alpn ''mutation_type'' = None \<and>
   mutate_client_hello ([modify_random] @ wire_remove_alpn # [remove_alpn]) example_hello =
     Inl (KeyError (PStr ''mutation_type''), example_hello) \<and>
   dict_lookup no_fields_server ''target'' = Some (PStr ''server'') \<and>
   dict_lookup no_fields_server ''fields'' = None \<and>
   mutate_server_hello ([] @ no_fields_server # [modify_random]) example_hello =
     Inl (KeyError (PStr ''fields''), example_hello)"
proof -
  have p: "parse_mutation_params example_loads ''scenario'' = Inr [remove_alpn, modify_random]"
    by (simp add: parse_mutation_params_def example_loads_def validate_entry_def MUTATIONS_FORMAT_def
        ALLOWED_FIELD_NAMES_def wire_remove_alpn_def wire_modify_random_def remove_alpn_def
        modify_random_def)
  have w: "dict_lookup wire_remove_alpn ''target'' = Some (PStr ''client'')"
      "dict_lookup wire_remove_alpn ''mutation_type'' = None"
    by (simp_all add: wire_remove_alpn_def)
  have pre: "mutate_client_hello [modify_random] example_hello = Inr example_hello"
    by (simp add: modify_random_def client_hello_step_def)
  have n: "dict_lookup no_fields_server ''target'' = Some (PStr ''server'')"
      "dict_lookup no_fields_server ''mutation_type'' \<noteq> None"
      "dict_lookup no_fields_server ''fields'' = None"
    by (simp_all add: no_fields_server_def)
  have pre': "mutate_server_hello [] example_hello = Inr example_hello"
    by simp
  from engine_reads_the_descriptor_keys
    [where json_loads = example_loads and param_str = "''scenario''"
       and ds = "[remove_alpn, modify_random]" and m = example_hello and d = wire_remove_alpn
       and pre = "[modify_random]" and post = "[remove_alpn]" and ?m1.0 = example_hello]
    engine_reads_the_descriptor_keys
    [where d = no_fields_server and pre = "[]" and post = "[modify_random]" and m = example_hello
       and ?m1.0 = example_hello]
    p w pre n pre'
  show ?thesis
    by simp
qed

end
